theory Spec2Isabelle
  imports Complex_Main "HOL-Library.Sublist"
begin

section \<open>Goodreads scraper: a shallow embedding\<close>

text \<open>
  The repository holds two pipelines in two variants each: \<^verbatim>\<open>url.py\<close> /
  \<^verbatim>\<open>url_scraper.py\<close> discover book URLs on paginated listing pages, and
  \<^verbatim>\<open>scraper.py\<close> / \<^verbatim>\<open>books_scraper.py\<close> fetch each book page,
  extract its fields, drop duplicate titles and append the records to JSON and CSV files.

  Pure code is embedded as HOL functions. What the code takes from outside (HTTP answers,
  the parsed page, the file system, the clock) is an explicit argument of the embedded
  function, an exception raised inside the embedded code is a value of \<open>py_error\<close>,
  and a loop that need not end is a partial function. A Python \<^verbatim>\<open>str\<close> is a
  \<open>string\<close>: the list of its code points, for the code points below 256 (the character
  classes below are those of Python on that range).
\<close>

subsection \<open>Exceptions\<close>

datatype py_error =
  FileNotFoundError | PermissionError | JSONDecodeError | TypeError | ValueError | IndexError
  | LocationParseError

subsection \<open>Character classes and string operations of Python\<close>

text \<open>
  \<open>py_isspace\<close> is \<^verbatim>\<open>str.isspace\<close> on one character, which is also the class
  \<^verbatim>\<open>\s\<close> of \<^verbatim>\<open>re\<close> on \<^verbatim>\<open>str\<close> patterns and the separator of
  \<^verbatim>\<open>str.split()\<close>: TAB, LF, VT, FF, CR, FS, GS, RS, US, space, NEL and the no-break
  space.
\<close>

definition py_isspace :: "char \<Rightarrow> bool" where
  "py_isspace c = (of_char c \<in> {9, 10, 11, 12, 13, 28, 29, 30, 31, 32, 133, 160 :: nat})"

text \<open>The class \<^verbatim>\<open>\d\<close>: the decimal digits, \<^verbatim>\<open>0\<close> to \<^verbatim>\<open>9\<close>.\<close>

definition is_decimal :: "char \<Rightarrow> bool" where
  "is_decimal c = (48 \<le> (of_char c :: nat) \<and> (of_char c :: nat) \<le> 57)"

text \<open>
  One character of \<^verbatim>\<open>str.isdigit\<close>: a decimal digit or one of the superscript
  digits two, three and one (code points 178, 179 and 185).
\<close>

definition is_digit_char :: "char \<Rightarrow> bool" where
  "is_digit_char c = (is_decimal c \<or> of_char c \<in> {178, 179, 185 :: nat})"

text \<open>The class \<^verbatim>\<open>[A-Za-z]\<close>.\<close>

definition is_ascii_letter :: "char \<Rightarrow> bool" where
  "is_ascii_letter c = ((65 \<le> (of_char c :: nat) \<and> (of_char c :: nat) \<le> 90)
     \<or> (97 \<le> (of_char c :: nat) \<and> (of_char c :: nat) \<le> 122))"

text \<open>
  The class \<^verbatim>\<open>\w\<close>, which decides the word boundary \<^verbatim>\<open>\b\<close>: the
  alphanumeric characters and the underscore (code point 95). Beyond ASCII these are the
  letters, superscript digits and vulgar fractions of Latin-1.
\<close>

definition is_word :: "char \<Rightarrow> bool" where
  "is_word c = (let n = (of_char c :: nat) in
     is_ascii_letter c \<or> is_decimal c \<or> n = 95
     \<or> n \<in> {170, 178, 179, 181, 185, 186, 188, 189, 190}
     \<or> (192 \<le> n \<and> n \<le> 214) \<or> (216 \<le> n \<and> n \<le> 246) \<or> 248 \<le> n)"

text \<open>\<^verbatim>\<open>s.isdigit()\<close>: \<open>s\<close> is not empty and all its characters are digits.\<close>

definition py_isdigit :: "string \<Rightarrow> bool" where
  "py_isdigit s = (s \<noteq> [] \<and> list_all is_digit_char s)"

text \<open>
  \<^verbatim>\<open>s.split()\<close>: the maximal runs of non-space characters, in order. The first
  argument of \<open>split_acc\<close> is the run being read.
\<close>

fun split_acc :: "string \<Rightarrow> string \<Rightarrow> string list" where
  "split_acc cur [] = (if cur = [] then [] else [cur])"
| "split_acc cur (c # cs) =
     (if py_isspace c then (if cur = [] then split_acc [] cs else cur # split_acc [] cs)
      else split_acc (cur @ [c]) cs)"

definition py_split :: "string \<Rightarrow> string list" where
  "py_split s = split_acc [] s"

text \<open>
  \<^verbatim>\<open>int(ds)\<close> for a string \<open>ds\<close> of decimal digits: the empty string raises
  \<^verbatim>\<open>ValueError\<close>, any other is read in base ten (leading zeros allowed).
\<close>

definition digit_value :: "char \<Rightarrow> int" where
  "digit_value c = int (of_char c) - 48"

definition int_of_digits :: "string \<Rightarrow> int" where
  "int_of_digits ds = foldl (\<lambda>acc c. 10 * acc + digit_value c) 0 ds"

definition py_int :: "string \<Rightarrow> py_error + int" where
  "py_int ds = (if ds = [] then Inl ValueError else Inr (int_of_digits ds))"





subsection \<open>Book records and deduplication by title\<close>

text \<open>
  A scraped book is a Python dictionary with fixed keys. \<open>remove_duplicates\<close> reads
  only \<^verbatim>\<open>book["title"]\<close>, so it is embedded on every record that extends
  \<open>book\<close>: \<open>basic_book\<close> has the keys of \<^verbatim>\<open>books_scraper.py\<close>,
  \<open>extended_book\<close> adds those of \<^verbatim>\<open>scraper.py\<close>. The field
  \<^verbatim>\<open>pages\<close> is an integer or the string \<^verbatim>\<open>"N/A"\<close>; the rating is
  carried, never computed on.
\<close>

record book =
  title :: string

datatype pages_value = Pages int | PagesNA

record basic_book = book +
  authorName :: string
  imageURL :: string
  description :: string
  category :: "string list"
  price :: int
  likes :: int
  stock :: int
  averageRating :: real

record extended_book = basic_book +
  isbn :: string
  publication :: string
  pages :: pages_value
  totalRating :: int
  totalReview :: int

text \<open>
  \<^verbatim>\<open>remove_duplicates(data)\<close> of \<^verbatim>\<open>scraper.py\<close> (lines 210-217) and
  \<^verbatim>\<open>books_scraper.py\<close> (lines 133-147): one pass over \<open>data\<close> with the set
  \<open>seen\<close> of titles met and the list \<open>unique_books\<close> built by \<^verbatim>\<open>append\<close>.
\<close>

fun remove_duplicates_loop ::
  "'a book_scheme list \<Rightarrow> string set \<Rightarrow> 'a book_scheme list \<Rightarrow> 'a book_scheme list" where
  "remove_duplicates_loop [] seen unique_books = unique_books"
| "remove_duplicates_loop (book # data) seen unique_books =
     (if title book \<notin> seen
      then remove_duplicates_loop data (insert (title book) seen) (unique_books @ [book])
      else remove_duplicates_loop data seen unique_books)"

definition remove_duplicates :: "'a book_scheme list \<Rightarrow> 'a book_scheme list" where
  "remove_duplicates data = remove_duplicates_loop data {} []"

text \<open>
  \<^verbatim>\<open>scrape_multiple_books(book_urls)\<close>: the loop over the URLs, then
  \<open>remove_duplicates\<close> on what it accumulated. \<open>is_valid_url\<close> (a test on the result
  of \<^verbatim>\<open>urlparse\<close>) and \<open>scrape_goodreads_book\<close> (network and page parsing; the
  answer for the \<open>i\<close>-th URL of the list, \<open>None\<close> when the fetch or the parse failed)
  are arguments.
\<close>

fun scrape_books_loop ::
  "(string \<Rightarrow> bool) \<Rightarrow> (nat \<Rightarrow> string \<Rightarrow> 'a book_scheme option) \<Rightarrow> nat \<Rightarrow> string list
     \<Rightarrow> 'a book_scheme list \<Rightarrow> 'a book_scheme list" where
  "scrape_books_loop is_valid_url scrape_goodreads_book i [] books_data = books_data"
| "scrape_books_loop is_valid_url scrape_goodreads_book i (url # book_urls) books_data =
     (if \<not> is_valid_url url
      then scrape_books_loop is_valid_url scrape_goodreads_book (Suc i) book_urls books_data
      else (case scrape_goodreads_book i url of
              None \<Rightarrow> scrape_books_loop is_valid_url scrape_goodreads_book (Suc i) book_urls books_data
            | Some book_data \<Rightarrow>
                scrape_books_loop is_valid_url scrape_goodreads_book (Suc i) book_urls
                  (books_data @ [book_data])))"

definition scrape_multiple_books ::
  "(string \<Rightarrow> bool) \<Rightarrow> (nat \<Rightarrow> string \<Rightarrow> 'a book_scheme option) \<Rightarrow> string list
     \<Rightarrow> 'a book_scheme list" where
  "scrape_multiple_books is_valid_url scrape_goodreads_book book_urls =
     remove_duplicates (scrape_books_loop is_valid_url scrape_goodreads_book 0 book_urls [])"

text \<open>
  Two notions used to state what the loops compute. \<open>firsts_by key seen xs\<close> keeps the
  elements of \<open>xs\<close> whose key is neither in \<open>seen\<close> nor the key of an earlier element.
  \<open>first_occurrence_indices data\<close> lists the positions of \<open>data\<close> whose title occurs at
  no earlier position.
\<close>

fun firsts_by :: "('a \<Rightarrow> 'k) \<Rightarrow> 'k set \<Rightarrow> 'a list \<Rightarrow> 'a list" where
  "firsts_by key seen [] = []"
| "firsts_by key seen (x # xs) =
     (if key x \<in> seen then firsts_by key seen xs
      else x # firsts_by key (insert (key x) seen) xs)"

definition first_occurrence_indices :: "'a book_scheme list \<Rightarrow> nat list" where
  "first_occurrence_indices data =
     filter (\<lambda>i. \<forall>j<i. title (data ! j) \<noteq> title (data ! i)) [0..<length data]"

text \<open>Three records of the basic variant; the first and the third share a title.\<close>

definition dune_first :: basic_book where
  "dune_first = \<lparr>title = ''Dune'', authorName = ''Frank Herbert'', imageURL = ''a.jpg'',
     description = ''A desert planet.'', category = [''Science Fiction''], price = 57000,
     likes = 69, stock = 7, averageRating = 4\<rparr>"

definition emma :: basic_book where
  "emma = \<lparr>title = ''Emma'', authorName = ''Jane Austen'', imageURL = ''b.jpg'',
     description = ''No description available.'', category = [''General''], price = 10000,
     likes = 1, stock = 1, averageRating = 0\<rparr>"

definition dune_again :: basic_book where
  "dune_again = \<lparr>title = ''Dune'', authorName = ''Frank Herbert'', imageURL = ''c.jpg'',
     description = ''A desert planet.'', category = [''Science Fiction''], price = 120000,
     likes = 3, stock = 2, averageRating = 4\<rparr>"

subsection \<open>The JSON store\<close>

text \<open>
  A JSON value as \<^verbatim>\<open>json.load\<close> returns it and \<^verbatim>\<open>json.dump\<close> takes it. An
  object keeps its keys in order.
\<close>

datatype json = JNull | JBool bool | JInt int | JFloat real | JStr string
  | JArr "json list" | JObj "(string \<times> json) list"

text \<open>
  A file is known by what \<^verbatim>\<open>json.load\<close> makes of its text: a decoding error
  (\<open>Malformed\<close>) or a value (\<open>Document\<close>); writing \<open>v\<close> with
  \<^verbatim>\<open>json.dump\<close> leaves a file that loads as \<open>v\<close>. In a file system,
  \<open>files\<close> maps a path to its file (\<open>None\<close>: no such file) and \<open>denied\<close> holds the
  paths that \<^verbatim>\<open>open\<close> refuses with \<^verbatim>\<open>PermissionError\<close>.
\<close>

datatype stored_file = Malformed | Document json

record file_system =
  files :: "string \<rightharpoonup> stored_file"
  denied :: "string set"

datatype log_record = INFO_saved | ERROR_saving py_error

definition open_read :: "file_system \<Rightarrow> string \<Rightarrow> py_error + stored_file" where
  "open_read fs filename =
     (if filename \<in> denied fs then Inl PermissionError
      else case files fs filename of None \<Rightarrow> Inl FileNotFoundError | Some f \<Rightarrow> Inr f)"

definition json_load :: "stored_file \<Rightarrow> py_error + json" where
  "json_load f = (case f of Malformed \<Rightarrow> Inl JSONDecodeError | Document v \<Rightarrow> Inr v)"

text \<open>
  The inner \<^verbatim>\<open>try\<close> of \<^verbatim>\<open>save_data_to_json\<close>: only
  \<^verbatim>\<open>FileNotFoundError\<close> is caught there and replaced by the empty list.
\<close>

definition load_existing :: "file_system \<Rightarrow> string \<Rightarrow> py_error + json" where
  "load_existing fs filename =
     (case open_read fs filename of
        Inl e \<Rightarrow> if e = FileNotFoundError then Inr (JArr []) else Inl e
      | Inr f \<Rightarrow> json_load f)"

text \<open>
  \<^verbatim>\<open>existing_data + data\<close> where \<open>data\<close> is a list: list concatenation when
  \<open>existing_data\<close> is a list, \<^verbatim>\<open>TypeError\<close> for every other JSON value.
\<close>

definition py_add :: "json \<Rightarrow> json list \<Rightarrow> py_error + json" where
  "py_add existing_data data =
     (case existing_data of JArr xs \<Rightarrow> Inr (JArr (xs @ data)) | _ \<Rightarrow> Inl TypeError)"

definition json_dump :: "json \<Rightarrow> string \<Rightarrow> file_system \<Rightarrow> py_error + file_system" where
  "json_dump v filename fs =
     (if filename \<in> denied fs then Inl PermissionError
      else Inr (fs\<lparr>files := (files fs)(filename \<mapsto> Document v)\<rparr>))"

text \<open>
  \<^verbatim>\<open>save_data_to_json(data, filename)\<close> (\<^verbatim>\<open>scraper.py\<close> lines 227-240,
  \<^verbatim>\<open>books_scraper.py\<close> lines 166-185). The outer \<^verbatim>\<open>except Exception\<close>
  logs the error and returns; the result is the file system after the call and the one line
  the call logs.
\<close>

definition save_data_to_json ::
  "json list \<Rightarrow> string \<Rightarrow> file_system \<Rightarrow> file_system \<times> log_record" where
  "save_data_to_json data filename fs =
     (case load_existing fs filename of
        Inl e \<Rightarrow> (fs, ERROR_saving e)
      | Inr existing_data \<Rightarrow>
          (case py_add existing_data data of
             Inl e \<Rightarrow> (fs, ERROR_saving e)
           | Inr updated_data \<Rightarrow>
               (case json_dump updated_data filename fs of
                  Inl e \<Rightarrow> (fs, ERROR_saving e)
                | Inr fs' \<Rightarrow> (fs', INFO_saved))))"

text \<open>The JSON object written for a record of the basic variant, keys in the order of the source.\<close>

definition basic_book_json :: "basic_book \<Rightarrow> json" where
  "basic_book_json b = JObj
     [(''title'', JStr (title b)), (''authorName'', JStr (authorName b)),
      (''imageURL'', JStr (imageURL b)), (''description'', JStr (description b)),
      (''category'', JArr (map JStr (category b))), (''price'', JInt (price b)),
      (''likes'', JInt (likes b)), (''stock'', JInt (stock b)),
      (''averageRating'', JFloat (averageRating b))]"

text \<open>Two file systems: an empty one, and one whose \<^verbatim>\<open>data.json\<close> does not parse.\<close>

definition no_files :: file_system where
  "no_files = \<lparr>files = Map.empty, denied = {}\<rparr>"

definition corrupt_store :: file_system where
  "corrupt_store = \<lparr>files = [''data.json'' \<mapsto> Malformed], denied = {}\<rparr>"

subsection \<open>Fetching with retries\<close>

text \<open>
  What one call of \<^verbatim>\<open>requests.get\<close> does: it returns a response, or it raises an
  exception of the class \<^verbatim>\<open>requests.exceptions.RequestException\<close> (the base class
  of the connection, timeout and protocol errors of the library), or it raises an exception
  of another class (\<open>Raised\<close>): \<^verbatim>\<open>requests\<close> passes on, unchanged, the
  \<^verbatim>\<open>LocationParseError\<close> of \<^verbatim>\<open>urllib3\<close> for a host name with a label
  of more than 63 characters, which is no \<^verbatim>\<open>RequestException\<close>. The network is
  the function \<open>requests_get url k\<close>: the outcome of the \<open>k\<close>-th call for \<open>url\<close>,
  counted from 0.
\<close>

record response =
  status_code :: int
  response_text :: string

datatype get_outcome = RequestException | Raised py_error | Responded response

text \<open>
  \<^verbatim>\<open>fetch_url_with_retries(url, retries)\<close> (\<^verbatim>\<open>scraper.py\<close> lines
  89-100, \<^verbatim>\<open>books_scraper.py\<close> lines 38-57). \<open>fetch_attempts\<close> is the loop
  \<^verbatim>\<open>for attempt in range(retries)\<close> from \<open>attempt\<close> on, with \<open>remaining\<close>
  iterations left. The handler is \<^verbatim>\<open>except requests.exceptions.RequestException\<close>:
  an exception of another class leaves the function. The result is \<open>Inr\<close> of the
  returned value (\<open>None\<close> for Python's \<^verbatim>\<open>None\<close>) or \<open>Inl\<close> of the exception
  that left the function, and the number of requests made. \<^verbatim>\<open>range\<close> of a negative
  number is empty, hence \<open>nat retries\<close>.
\<close>

fun fetch_attempts ::
  "(nat \<Rightarrow> get_outcome) \<Rightarrow> nat \<Rightarrow> nat \<Rightarrow> (py_error + response option) \<times> nat" where
  "fetch_attempts get attempt 0 = (Inr None, attempt)"
| "fetch_attempts get attempt (Suc remaining) =
     (case get attempt of
        Responded response \<Rightarrow>
          if status_code response = 200 then (Inr (Some response), Suc attempt)
          else fetch_attempts get (Suc attempt) remaining
      | RequestException \<Rightarrow> fetch_attempts get (Suc attempt) remaining
      | Raised e \<Rightarrow> (Inl e, Suc attempt))"


text \<open>
  An attempt fails, and the loop goes on, when the request raised a
  \<^verbatim>\<open>RequestException\<close> or the status is not 200.
\<close>

definition attempt_failed :: "get_outcome \<Rightarrow> bool" where
  "attempt_failed outcome =
     (case outcome of RequestException \<Rightarrow> True | Raised e \<Rightarrow> False
      | Responded response \<Rightarrow> status_code response \<noteq> 200)"






subsection \<open>Field extraction: counts\<close>

text \<open>
  \<^verbatim>\<open>extract_int_from_text(text)\<close> (\<^verbatim>\<open>scraper.py\<close> lines 111-112):
  \<^verbatim>\<open>int(re.sub(r"[^\d]", "", text)) if text else 0\<close>. The substitution keeps the
  decimal digits of the text.
\<close>

definition extract_int_from_text :: "string \<Rightarrow> py_error + int" where
  "extract_int_from_text t = (if t \<noteq> [] then py_int (filter is_decimal t) else Inr 0)"

text \<open>
  The two count fields of \<^verbatim>\<open>scrape_goodreads_book\<close> (lines 171-174):
  \<^verbatim>\<open>extract_int_from_text(tag.get_text()) if tag else 0\<close>. The argument is the text
  of the element, \<open>None\<close> when the page has no such element.
\<close>

definition count_field :: "string option \<Rightarrow> py_error + int" where
  "count_field tag_text = (case tag_text of None \<Rightarrow> Inr 0 | Some t \<Rightarrow> extract_int_from_text t)"

subsection \<open>Field extraction: the ISBN\<close>

text \<open>
  \<^verbatim>\<open>extract_isbn(soup, html_text)\<close> (\<^verbatim>\<open>scraper.py\<close> lines 102-109). The
  page enters as \<open>isbn_divs\<close>, the list of \<^verbatim>\<open>div.get_text(strip=True)\<close> for the
  elements \<^verbatim>\<open>find_all\<close> selects, in document order. \<open>isbn_from_divs\<close> is the
  \<^verbatim>\<open>for\<close> loop; \<^verbatim>\<open>text.split()[0]\<close> raises \<^verbatim>\<open>IndexError\<close> on
  an empty list.
\<close>

fun isbn_from_divs :: "string list \<Rightarrow> py_error + string option" where
  "isbn_from_divs [] = Inr None"
| "isbn_from_divs (t # divs) =
     (if t \<noteq> [] \<and> py_isdigit (take 3 t) then
        (case py_split t of
           [] \<Rightarrow> Inl IndexError
         | token # _ \<Rightarrow> if 10 \<le> length token then Inr (Some token) else isbn_from_divs divs)
      else isbn_from_divs divs)"

text \<open>
  \<^verbatim>\<open>re.search(r'\b97[89][\d]{10}\b', html_text)\<close>. \<open>isbn13_here s\<close>: the
  pattern without its first word boundary matches a prefix of \<open>s\<close>. The thirteen characters
  are word characters, so the first boundary holds when the character before is not one (or
  there is none) and the last boundary when the character after is not one (or there is
  none). \<open>isbn13_search\<close> tries the positions from left to right; its first argument tells
  whether the character before the position is a word character.
\<close>

definition isbn13_here :: "string \<Rightarrow> bool" where
  "isbn13_here s =
     (13 \<le> length s \<and> take 2 s = ''97'' \<and> (s ! 2 = CHR ''8'' \<or> s ! 2 = CHR ''9'')
      \<and> list_all is_decimal (take 10 (drop 3 s))
      \<and> (case drop 13 s of [] \<Rightarrow> True | c # _ \<Rightarrow> \<not> is_word c))"

fun isbn13_search :: "bool \<Rightarrow> string \<Rightarrow> string option" where
  "isbn13_search after_word [] = None"
| "isbn13_search after_word (c # cs) =
     (if \<not> after_word \<and> isbn13_here (c # cs) then Some (take 13 (c # cs))
      else isbn13_search (is_word c) cs)"

definition extract_isbn :: "string list \<Rightarrow> string \<Rightarrow> py_error + string" where
  "extract_isbn isbn_divs html_text =
     (case isbn_from_divs isbn_divs of
        Inl e \<Rightarrow> Inl e
      | Inr (Some token) \<Rightarrow> Inr token
      | Inr None \<Rightarrow>
          (case isbn13_search False html_text of Some m \<Rightarrow> Inr m | None \<Rightarrow> Inr ''N/A''))"

text \<open>
  Notions used to state what \<open>extract_isbn\<close> returns. \<open>first_token t\<close> is the first
  run of non-space characters of \<open>t\<close>. \<open>isbn_block t\<close> is the test of the loop on a
  block. \<open>isbn13_match pre m post\<close> says that \<open>m\<close>, standing between \<open>pre\<close> and
  \<open>post\<close>, is an occurrence of the pattern: 97, then 8 or 9, then ten decimal digits, with
  no word character right before or right after.
\<close>

definition first_token :: "string \<Rightarrow> string" where
  "first_token t = takeWhile (\<lambda>c. \<not> py_isspace c) (dropWhile py_isspace t)"

definition isbn_block :: "string \<Rightarrow> bool" where
  "isbn_block t = (py_isdigit (take 3 t) \<and> 10 \<le> length (first_token t))"

definition isbn13_shape :: "string \<Rightarrow> bool" where
  "isbn13_shape m =
     (length m = 13 \<and> take 2 m = ''97'' \<and> (m ! 2 = CHR ''8'' \<or> m ! 2 = CHR ''9'')
      \<and> list_all is_decimal (drop 3 m))"

definition isbn13_occurs :: "bool \<Rightarrow> string \<Rightarrow> string \<Rightarrow> string \<Rightarrow> bool" where
  "isbn13_occurs after_word pre m post =
     (isbn13_shape m
      \<and> (if pre = [] then \<not> after_word else \<not> is_word (last pre))
      \<and> (post = [] \<or> \<not> is_word (hd post)))"

definition isbn13_match :: "string \<Rightarrow> string \<Rightarrow> string \<Rightarrow> bool" where
  "isbn13_match pre m post = isbn13_occurs False pre m post"

subsection \<open>Field extraction: the publication date\<close>









































subsection \<open>The discovery crawler\<close>
















subsection \<open>The paginated URL\<close>

text \<open>
  \<^verbatim>\<open>update_pagination_url(base_url, page_number)\<close> (\<^verbatim>\<open>url.py\<close> lines
  67-72, \<^verbatim>\<open>url_scraper.py\<close> lines 14-35) is four calls of
  \<^verbatim>\<open>urllib.parse\<close>. A URL is taken as the six components
  \<^verbatim>\<open>urlparse\<close> splits it into and \<^verbatim>\<open>urlunparse\<close> joins again. Its
  query string is taken as the list of its fields between the \<^verbatim>\<open>&\<close> signs, each a
  name and a value, percent-decoded; a field without \<^verbatim>\<open>=\<close> and a field that ends
  with \<^verbatim>\<open>=\<close> both have the empty value.
\<close>

record url =
  scheme :: string
  netloc :: string
  path :: string
  params :: string
  query :: "(string \<times> string) list"
  fragment :: string












section \<open>Deduplication by title\<close>

lemma remove_duplicates_loop_firsts:
  "remove_duplicates_loop data seen acc = acc @ firsts_by title seen data"
  by (induction data arbitrary: seen acc) simp_all

lemma remove_duplicates_firsts: "remove_duplicates data = firsts_by title {} data"
  by (simp add: remove_duplicates_def remove_duplicates_loop_firsts)

lemma firsts_by_keys_notin: "x \<in> set (firsts_by key seen xs) \<Longrightarrow> key x \<notin> seen"
  by (induction xs arbitrary: seen) (auto split: if_splits)

lemma firsts_by_set: "key ` set (firsts_by key seen xs) = key ` set xs - seen"
  by (induction xs arbitrary: seen) auto

lemma firsts_by_distinct: "distinct (map key (firsts_by key seen xs))"
  by (induction xs arbitrary: seen) (auto dest: firsts_by_keys_notin)

lemma firsts_by_subseq: "subseq (firsts_by key seen xs) xs"
  by (induction xs arbitrary: seen) auto

lemma firsts_by_idem: "firsts_by key seen (firsts_by key seen xs) = firsts_by key seen xs"
proof (induction xs arbitrary: seen)
  case Nil
  show ?case by simp
next
  case (Cons x xs)
  show ?case
  proof (cases "key x \<in> seen")
    case True
    with Cons show ?thesis by simp
  next
    case False
    with Cons [of "insert (key x) seen"] show ?thesis by simp
  qed
qed

lemma firsts_by_find:
  "b \<in> set (firsts_by key seen xs) \<Longrightarrow> find (\<lambda>b'. key b' = key b) xs = Some b"
proof (induction xs arbitrary: seen)
  case Nil
  then show ?case by simp
next
  case (Cons x xs)
  show ?case
  proof (cases "key x \<in> seen")
    case True
    with Cons.prems have b: "b \<in> set (firsts_by key seen xs)" by simp
    then have "key b \<notin> seen" by (rule firsts_by_keys_notin)
    with True have "key x \<noteq> key b" by auto
    with Cons.IH [OF b] show ?thesis by simp
  next
    case False
    with Cons.prems have "b = x \<or> b \<in> set (firsts_by key (insert (key x) seen) xs)" by simp
    then show ?thesis
    proof
      assume "b = x"
      then show ?thesis by simp
    next
      assume b: "b \<in> set (firsts_by key (insert (key x) seen) xs)"
      then have "key b \<notin> insert (key x) seen" by (rule firsts_by_keys_notin)
      then have "key x \<noteq> key b" by auto
      with Cons.IH [OF b] show ?thesis by simp
    qed
  qed
qed

lemma firsts_by_indices:
  "firsts_by key seen xs =
     map (\<lambda>i. xs ! i)
       (filter (\<lambda>i. key (xs ! i) \<notin> seen \<and> (\<forall>j<i. key (xs ! j) \<noteq> key (xs ! i))) [0..<length xs])"
proof (induction xs arbitrary: seen)
  case Nil
  show ?case by simp
next
  case (Cons x xs)
  have upt: "[0..<length (x # xs)] = 0 # map Suc [0..<length xs]"
    by (simp add: upt_conv_Cons map_Suc_upt del: upt_Suc)
  have shift: "\<And>P. filter P (map Suc [0..<length xs]) = map Suc (filter (\<lambda>i. P (Suc i)) [0..<length xs])"
    by (simp add: filter_map comp_def)
  have all_Suc: "\<And>i. (\<forall>j<Suc i. key ((x # xs) ! j) \<noteq> key (xs ! i)) \<longleftrightarrow>
      key x \<noteq> key (xs ! i) \<and> (\<forall>j<i. key (xs ! j) \<noteq> key (xs ! i))"
    by (auto simp: less_Suc_eq_0_disj)
  show ?case
  proof (cases "key x \<in> seen")
    case True
    then have same: "\<And>i. (key (xs ! i) \<notin> seen \<and> key x \<noteq> key (xs ! i) \<and> (\<forall>j<i. key (xs ! j) \<noteq> key (xs ! i)))
        \<longleftrightarrow> (key (xs ! i) \<notin> seen \<and> (\<forall>j<i. key (xs ! j) \<noteq> key (xs ! i)))"
      by auto
    show ?thesis
      unfolding upt using True
      by (simp add: shift all_Suc same Cons.IH [of seen] comp_def del: upt_Suc)
  next
    case False
    have same: "\<And>i. (key (xs ! i) \<notin> seen \<and> key x \<noteq> key (xs ! i) \<and> (\<forall>j<i. key (xs ! j) \<noteq> key (xs ! i)))
        \<longleftrightarrow> (key (xs ! i) \<notin> insert (key x) seen \<and> (\<forall>j<i. key (xs ! j) \<noteq> key (xs ! i)))"
      by auto
    show ?thesis
      unfolding upt using False
      by (simp add: shift all_Suc same Cons.IH [of "insert (key x) seen"] comp_def del: upt_Suc)
  qed
qed

text \<open>
  Claim C1. For every list of book records, \<open>remove_duplicates\<close> returns a list in
  which no two records have the same title; every title of the input is kept; each record
  kept is the first record of the input with its title; and the records kept stand in the
  order of these first occurrences: the result is the input read at the positions whose
  title occurs at no earlier position. \<open>scrape_multiple_books\<close> returns what
  \<open>remove_duplicates\<close> makes of the records it accumulated, so its result has no two
  records with the same title either.
\<close>

theorem remove_duplicates_first_occurrence:
  "distinct (map title (remove_duplicates data))
   \<and> set (map title (remove_duplicates data)) = set (map title data)
   \<and> (\<forall>b \<in> set (remove_duplicates data). find (\<lambda>b'. title b' = title b) data = Some b)
   \<and> remove_duplicates data = map (\<lambda>i. data ! i) (first_occurrence_indices data)
   \<and> distinct (map title (scrape_multiple_books is_valid_url scrape_goodreads_book book_urls))"
proof -
  have 1: "distinct (map title (remove_duplicates data))"
    by (simp add: remove_duplicates_firsts firsts_by_distinct)
  have 2: "set (map title (remove_duplicates data)) = set (map title data)"
    using firsts_by_set [of title "{}" data] by (simp add: remove_duplicates_firsts)
  have 3: "\<forall>b \<in> set (remove_duplicates data). find (\<lambda>b'. title b' = title b) data = Some b"
    by (simp add: remove_duplicates_firsts firsts_by_find)
  have 4: "remove_duplicates data = map (\<lambda>i. data ! i) (first_occurrence_indices data)"
    using firsts_by_indices [of title "{}" data]
    by (simp add: remove_duplicates_firsts first_occurrence_indices_def)
  have 5: "distinct (map title (scrape_multiple_books is_valid_url scrape_goodreads_book book_urls))"
    by (simp add: scrape_multiple_books_def remove_duplicates_firsts firsts_by_distinct)
  from 1 2 3 4 5 show ?thesis by blast
qed

text \<open>
  The theorem at the list \<open>[dune_first, emma, dune_again]\<close>: the second record titled
  Dune is dropped, the first one is kept, and the positions kept are 0 and 1.
\<close>

theorem remove_duplicates_first_occurrence_witness:
  "remove_duplicates [dune_first, emma, dune_again] = [dune_first, emma]
   \<and> distinct (map title (remove_duplicates [dune_first, emma, dune_again]))
   \<and> find (\<lambda>b'. title b' = title dune_first) [dune_first, emma, dune_again] = Some dune_first
   \<and> first_occurrence_indices [dune_first, emma, dune_again] = [0, 1]"
proof -
  have r: "remove_duplicates [dune_first, emma, dune_again] = [dune_first, emma]"
    by (simp add: remove_duplicates_def dune_first_def emma_def dune_again_def)
  have i: "first_occurrence_indices [dune_first, emma, dune_again] = [0, 1]"
    by (simp add: first_occurrence_indices_def dune_first_def emma_def dune_again_def upt_rec
        less_Suc_eq_0_disj numeral_3_eq_3)
  from remove_duplicates_first_occurrence [of "[dune_first, emma, dune_again]"] r i
  show ?thesis by (simp add: dune_first_def emma_def)
qed

text \<open>
  Claim C10. \<open>remove_duplicates\<close> is idempotent, and its result is a subsequence of
  its input: the records kept are records of the input, unchanged and in the same relative
  order.
\<close>

theorem remove_duplicates_idempotent_subseq:
  "remove_duplicates (remove_duplicates data) = remove_duplicates data
   \<and> subseq (remove_duplicates data) data"
  by (simp add: remove_duplicates_firsts firsts_by_idem firsts_by_subseq)

section \<open>The JSON store\<close>

lemma save_absent:
  "files fs filename = None \<Longrightarrow> filename \<notin> denied fs \<Longrightarrow>
   save_data_to_json L filename fs = (fs\<lparr>files := (files fs)(filename \<mapsto> Document (JArr L))\<rparr>, INFO_saved)"
  by (simp add: save_data_to_json_def load_existing_def open_read_def py_add_def json_dump_def)

lemma save_array:
  "files fs filename = Some (Document (JArr xs)) \<Longrightarrow> filename \<notin> denied fs \<Longrightarrow>
   save_data_to_json L filename fs = (fs\<lparr>files := (files fs)(filename \<mapsto> Document (JArr (xs @ L)))\<rparr>, INFO_saved)"
  by (simp add: save_data_to_json_def load_existing_def open_read_def py_add_def json_dump_def json_load_def)

text \<open>
  Claim C5. Starting from a file system in which the file is absent (and the path can be
  opened), two calls of \<open>save_data_to_json\<close> with the same list \<open>L\<close> leave a
  file holding the array \<open>L @ L\<close>: the first call reads the absent file as the empty
  array and writes \<open>L\<close>, the second appends \<open>L\<close> after it, and both log success.
  Nothing is deduplicated across calls.
\<close>

theorem save_data_to_json_twice:
  assumes "files fs filename = None" and "filename \<notin> denied fs"
  shows "files (fst (save_data_to_json L filename (fst (save_data_to_json L filename fs)))) filename
           = Some (Document (JArr (L @ L)))
       \<and> files (fst (save_data_to_json L filename fs)) filename = Some (Document (JArr L))
       \<and> snd (save_data_to_json L filename fs) = INFO_saved
       \<and> snd (save_data_to_json L filename (fst (save_data_to_json L filename fs))) = INFO_saved"
proof -
  let ?fs1 = "fs\<lparr>files := (files fs)(filename \<mapsto> Document (JArr L))\<rparr>"
  have 1: "save_data_to_json L filename fs = (?fs1, INFO_saved)"
    using assms by (rule save_absent)
  have "files ?fs1 filename = Some (Document (JArr L))" and "filename \<notin> denied ?fs1"
    using assms by simp_all
  then have "save_data_to_json L filename ?fs1 =
      (?fs1\<lparr>files := (files ?fs1)(filename \<mapsto> Document (JArr (L @ L)))\<rparr>, INFO_saved)"
    by (rule save_array)
  with 1 show ?thesis by simp
qed

text \<open>
  The theorem at the empty file system, the path \<^verbatim>\<open>data.json\<close> and the two
  records \<open>dune_first\<close> and \<open>emma\<close>: the file ends with four objects.
\<close>

theorem save_data_to_json_twice_witness:
  "files no_files ''data.json'' = None \<and> ''data.json'' \<notin> denied no_files
   \<and> files (fst (save_data_to_json (map basic_book_json [dune_first, emma]) ''data.json''
         (fst (save_data_to_json (map basic_book_json [dune_first, emma]) ''data.json'' no_files))))
       ''data.json''
     = Some (Document (JArr (map basic_book_json [dune_first, emma, dune_first, emma])))"
  using save_data_to_json_twice [of no_files "''data.json''" "map basic_book_json [dune_first, emma]"]
  by (simp add: no_files_def)

text \<open>
  Claim C6, as the code has it. When the file exists and its text does not parse as JSON,
  \<open>save_data_to_json\<close> does not treat it as absent: the decoding error is not a
  \<^verbatim>\<open>FileNotFoundError\<close>, so it reaches the outer handler, the call logs the error
  and writes nothing. The file system is unchanged and the new records are not stored.
\<close>

theorem save_data_to_json_malformed:
  assumes "files fs filename = Some Malformed" and "filename \<notin> denied fs"
  shows "save_data_to_json data filename fs = (fs, ERROR_saving JSONDecodeError)"
  using assms
  by (simp add: save_data_to_json_def load_existing_def open_read_def json_load_def)

text \<open>
  The theorem at a file system whose \<^verbatim>\<open>data.json\<close> does not parse: the call
  returns the file system as it was.
\<close>

theorem save_data_to_json_malformed_witness:
  "files corrupt_store ''data.json'' = Some Malformed \<and> ''data.json'' \<notin> denied corrupt_store
   \<and> save_data_to_json [basic_book_json emma] ''data.json'' corrupt_store
       = (corrupt_store, ERROR_saving JSONDecodeError)"
  using save_data_to_json_malformed [of corrupt_store "''data.json''" "[basic_book_json emma]"]
  by (simp add: corrupt_store_def)

text \<open>
  The claim as the specification states it (a malformed file is handled like an absent
  one, and the new records are still written) fails: with an absent \<^verbatim>\<open>data.json\<close>
  the record is written, with a malformed one the file stays malformed.
\<close>

theorem save_data_to_json_malformed_counterexample:
  "files (fst (save_data_to_json [basic_book_json emma] ''data.json'' no_files)) ''data.json''
     = Some (Document (JArr [basic_book_json emma]))
   \<and> files (fst (save_data_to_json [basic_book_json emma] ''data.json'' corrupt_store)) ''data.json''
     = Some Malformed
   \<and> snd (save_data_to_json [basic_book_json emma] ''data.json'' corrupt_store)
     = ERROR_saving JSONDecodeError"
  by (simp add: save_data_to_json_def load_existing_def open_read_def json_load_def py_add_def
      json_dump_def corrupt_store_def no_files_def)

section \<open>Fetching with retries\<close>


lemma fetch_attempts_stop:
  "\<not> attempt_failed (get a) \<Longrightarrow>
     fetch_attempts get a (Suc n)
       = (case get a of Raised e \<Rightarrow> (Inl e, Suc a) | Responded r \<Rightarrow> (Inr (Some r), Suc a)
          | RequestException \<Rightarrow> (Inr None, Suc a))"
  by (auto simp: attempt_failed_def split: get_outcome.splits)








section \<open>Counts\<close>

lemma extract_int_from_text_raises_iff:
  "extract_int_from_text t = Inl ValueError \<longleftrightarrow> t \<noteq> [] \<and> filter is_decimal t = []"
  by (simp add: extract_int_from_text_def py_int_def)

lemma extract_int_from_text_digits:
  "filter is_decimal t \<noteq> [] \<Longrightarrow> extract_int_from_text t = Inr (int_of_digits (filter is_decimal t))"
  by (auto simp: extract_int_from_text_def py_int_def)

text \<open>
  Claim C8 says that the numeric extraction returns an integer for every text. The code
  does not: a text that is not empty and holds no decimal digit passes the test
  \<^verbatim>\<open>if text\<close>, the substitution leaves the empty string, and \<^verbatim>\<open>int("")\<close>
  raises \<^verbatim>\<open>ValueError\<close>. Here the text of the element is \<^verbatim>\<open>No ratings yet\<close>;
  a text with digits is read as the claim says, and an absent element gives 0.
\<close>

theorem extract_int_from_text_raises:
  "extract_int_from_text ''No ratings yet'' = Inl ValueError
   \<and> count_field (Some ''No ratings yet'') = Inl ValueError
   \<and> extract_int_from_text ''625,058 ratings'' = Inr 625058
   \<and> extract_int_from_text [] = Inr 0
   \<and> count_field None = Inr 0"
  by (simp add: extract_int_from_text_def count_field_def py_int_def is_decimal_def
      int_of_digits_def digit_value_def)

section \<open>The ISBN\<close>

lemma split_acc_first:
  "split_acc cur s = (if cur @ takeWhile (\<lambda>c. \<not> py_isspace c) s = [] then split_acc [] (dropWhile (\<lambda>c. \<not> py_isspace c) s)
     else (cur @ takeWhile (\<lambda>c. \<not> py_isspace c) s) # split_acc [] (dropWhile (\<lambda>c. \<not> py_isspace c) s))"
proof (induction s arbitrary: cur)
  case Nil
  show ?case by simp
next
  case (Cons c cs)
  show ?case
  proof (cases "py_isspace c")
    case True
    then show ?thesis by simp
  next
    case False
    with Cons [of "cur @ [c]"] show ?thesis by simp
  qed
qed

lemma split_acc_skip: "split_acc [] s = split_acc [] (dropWhile py_isspace s)"
  by (induction s) simp_all

lemma py_split_first_token:
  "py_split t = (if first_token t = [] then []
     else first_token t # py_split (dropWhile (\<lambda>c. \<not> py_isspace c) (dropWhile py_isspace t)))"
proof -
  define u where "u = dropWhile py_isspace t"
  have ft: "first_token t = takeWhile (\<lambda>c. \<not> py_isspace c) u"
    by (simp add: first_token_def u_def)
  have start: "py_split t = split_acc [] u"
    unfolding py_split_def u_def by (rule split_acc_skip)
  have step: "split_acc [] u =
      (if takeWhile (\<lambda>c. \<not> py_isspace c) u = [] then split_acc [] (dropWhile (\<lambda>c. \<not> py_isspace c) u)
       else takeWhile (\<lambda>c. \<not> py_isspace c) u # split_acc [] (dropWhile (\<lambda>c. \<not> py_isspace c) u))"
    using split_acc_first [of "[]" u] by simp
  have empty: "u = []" if "takeWhile (\<lambda>c. \<not> py_isspace c) u = []"
  proof (rule ccontr)
    assume ne: "u \<noteq> []"
    then have "\<not> py_isspace (hd u)" unfolding u_def by (rule hd_dropWhile)
    with ne have "takeWhile (\<lambda>c. \<not> py_isspace c) u \<noteq> []" by (cases u) simp_all
    with that show False by contradiction
  qed
  show ?thesis
  proof (cases "takeWhile (\<lambda>c. \<not> py_isspace c) u = []")
    case True
    then have "u = []" by (rule empty)
    with start ft show ?thesis by simp
  next
    case False
    with start step ft show ?thesis by (simp add: py_split_def u_def)
  qed
qed

lemma digit_not_space: "is_digit_char c \<Longrightarrow> \<not> py_isspace c"
  by (auto simp: is_digit_char_def is_decimal_def py_isspace_def)

lemma isdigit_first_token: "py_isdigit (take 3 t) \<Longrightarrow> first_token t \<noteq> []"
proof -
  assume "py_isdigit (take 3 t)"
  then obtain c cs where t: "t = c # cs" and "is_digit_char c"
    by (cases t) (auto simp: py_isdigit_def)
  then have "\<not> py_isspace c" by (simp add: digit_not_space)
  with t show ?thesis by (simp add: first_token_def)
qed

lemma isbn_from_divs_find:
  "isbn_from_divs divs = Inr (map_option first_token (find isbn_block divs))"
proof (induction divs)
  case Nil
  show ?case by simp
next
  case (Cons t divs)
  show ?case
  proof (cases "py_isdigit (take 3 t)")
    case True
    then have ne: "first_token t \<noteq> []" by (rule isdigit_first_token)
    from True have "t \<noteq> []" by (auto simp: py_isdigit_def)
    with True ne Cons show ?thesis
      by (simp add: py_split_first_token [of t] isbn_block_def)
  next
    case False
    with Cons show ?thesis by (simp add: isbn_block_def)
  qed
qed


lemma isbn13_here_iff:
  "length m = 13 \<Longrightarrow>
   isbn13_here (m @ post) = (isbn13_shape m \<and> (post = [] \<or> \<not> is_word (hd post)))"
  by (cases post) (auto simp: isbn13_here_def isbn13_shape_def nth_append)

lemma isbn13_here_split:
  "isbn13_here s \<Longrightarrow> isbn13_shape (take 13 s) \<and> (drop 13 s = [] \<or> \<not> is_word (hd (drop 13 s)))"
proof -
  assume h: "isbn13_here s"
  then have len: "length (take 13 s) = 13" by (simp add: isbn13_here_def)
  from h have "isbn13_here (take 13 s @ drop 13 s)" by simp
  with isbn13_here_iff [OF len, of "drop 13 s"] show ?thesis by blast
qed

lemma isbn13_occurs_Cons:
  "isbn13_occurs after_word (c # pre) m post = isbn13_occurs (is_word c) pre m post"
  by (simp add: isbn13_occurs_def)

lemma isbn13_search_None:
  "isbn13_search after_word s = None \<Longrightarrow> s = pre @ m @ post \<Longrightarrow> \<not> isbn13_occurs after_word pre m post"
proof (induction s arbitrary: after_word pre)
  case Nil
  then show ?case by (simp add: isbn13_occurs_def isbn13_shape_def)
next
  case (Cons c cs)
  from Cons.prems(1) have not_here: "\<not> (\<not> after_word \<and> isbn13_here (c # cs))"
    and rest: "isbn13_search (is_word c) cs = None"
    by (auto split: if_splits)
  show ?case
  proof (cases pre)
    case Nil
    show ?thesis
    proof
      assume occ: "isbn13_occurs after_word pre m post"
      with Nil have "\<not> after_word" and "isbn13_shape m" and "post = [] \<or> \<not> is_word (hd post)"
        by (simp_all add: isbn13_occurs_def)
      moreover from \<open>isbn13_shape m\<close> have "length m = 13" by (simp add: isbn13_shape_def)
      ultimately have "isbn13_here (m @ post)" by (simp add: isbn13_here_iff)
      with Cons.prems(2) Nil \<open>\<not> after_word\<close> not_here show False by simp
    qed
  next
    case (Cons d pre')
    with Cons.prems(2) have "cs = pre' @ m @ post" and "d = c" by simp_all
    from Cons.IH [OF rest this(1)] Cons \<open>d = c\<close> show ?thesis
      by (simp add: isbn13_occurs_Cons)
  qed
qed

lemma isbn13_search_Some:
  "isbn13_search after_word s = Some m \<Longrightarrow>
   \<exists>pre post. s = pre @ m @ post \<and> isbn13_occurs after_word pre m post
     \<and> (\<forall>pre' m' post'. s = pre' @ m' @ post' \<and> isbn13_occurs after_word pre' m' post'
            \<longrightarrow> length pre \<le> length pre')"
proof (induction s arbitrary: after_word)
  case Nil
  then show ?case by simp
next
  case (Cons c cs)
  show ?case
  proof (cases "\<not> after_word \<and> isbn13_here (c # cs)")
    case True
    with Cons.prems have m: "m = take 13 (c # cs)" by simp
    from True isbn13_here_split [of "c # cs"] have "isbn13_occurs after_word [] m (drop 13 (c # cs))"
      unfolding m isbn13_occurs_def by simp
    moreover have "c # cs = [] @ m @ drop 13 (c # cs)" unfolding m by simp
    ultimately show ?thesis by (metis le0 list.size(3))
  next
    case False
    with Cons.prems have rest: "isbn13_search (is_word c) cs = Some m" by (simp split: if_splits)
    from Cons.IH [OF rest] obtain pre post where cs: "cs = pre @ m @ post"
      and occ: "isbn13_occurs (is_word c) pre m post"
      and least: "\<forall>pre' m' post'. cs = pre' @ m' @ post' \<and> isbn13_occurs (is_word c) pre' m' post'
            \<longrightarrow> length pre \<le> length pre'"
      by blast
    have "c # cs = (c # pre) @ m @ post" using cs by simp
    moreover have "isbn13_occurs after_word (c # pre) m post"
      using occ by (simp add: isbn13_occurs_Cons)
    moreover have "length (c # pre) \<le> length pre'"
      if split: "c # cs = pre' @ m' @ post'" and occ': "isbn13_occurs after_word pre' m' post'"
      for pre' m' post'
    proof (cases pre')
      case Nil
      with occ' have "\<not> after_word" and sh: "isbn13_shape m'" and "post' = [] \<or> \<not> is_word (hd post')"
        by (simp_all add: isbn13_occurs_def)
      moreover from sh have "length m' = 13" by (simp add: isbn13_shape_def)
      ultimately have "isbn13_here (m' @ post')" by (simp add: isbn13_here_iff)
      with split Nil \<open>\<not> after_word\<close> False show ?thesis by simp
    next
      case (Cons d pre'')
      with split have "cs = pre'' @ m' @ post'" and "d = c" by simp_all
      moreover from occ' Cons \<open>d = c\<close> have "isbn13_occurs (is_word c) pre'' m' post'"
        by (simp add: isbn13_occurs_Cons)
      ultimately have "length pre \<le> length pre''" using least by blast
      with Cons show ?thesis by simp
    qed
    ultimately show ?thesis by blast
  qed
qed

lemma isbn13_leftmost_unique:
  assumes "s = pre @ m @ post" and "s = pre' @ m' @ post'"
    and "length pre = length pre'" and "length m = length m'"
  shows "m = m'"
proof -
  from assms(1,2) have "pre @ (m @ post) = pre' @ (m' @ post')" by simp
  with assms(3) have "m @ post = m' @ post'" by simp
  with assms(4) show ?thesis by simp
qed

text \<open>
  Claim C7, as the code has it. \<open>extract_isbn\<close> never raises. If some block passes
  the test of the loop (its first three characters, or all of them when it is shorter, are
  digits, and its first token has at least ten characters), the result is the first token of
  the first such block; the token need not consist of digits. Otherwise, if the markup
  holds an occurrence of the pattern (thirteen characters: 97, then 8 or 9, then ten decimal
  digits, with no word character right before or after), the result is the leftmost
  occurrence. Otherwise the result is \<^verbatim>\<open>N/A\<close>.
\<close>

theorem extract_isbn_result:
  "(\<exists>r. extract_isbn divs html = Inr r)
   \<and> (\<forall>t. find isbn_block divs = Some t \<longrightarrow> extract_isbn divs html = Inr (first_token t))
   \<and> (\<forall>pre m post.
         find isbn_block divs = None \<and> html = pre @ m @ post \<and> isbn13_match pre m post
         \<and> (\<forall>pre' m' post'. html = pre' @ m' @ post' \<and> isbn13_match pre' m' post'
                \<longrightarrow> length pre \<le> length pre')
         \<longrightarrow> extract_isbn divs html = Inr m)
   \<and> (find isbn_block divs = None
         \<and> (\<forall>pre m post. html = pre @ m @ post \<longrightarrow> \<not> isbn13_match pre m post)
         \<longrightarrow> extract_isbn divs html = Inr ''N/A'')"
proof -
  have 1: "\<exists>r. extract_isbn divs html = Inr r"
    by (simp add: extract_isbn_def isbn_from_divs_find split: option.splits)
  have 2: "\<forall>t. find isbn_block divs = Some t \<longrightarrow> extract_isbn divs html = Inr (first_token t)"
    by (simp add: extract_isbn_def isbn_from_divs_find)
  have 3: "extract_isbn divs html = Inr m"
    if none: "find isbn_block divs = None" and split: "html = pre @ m @ post"
      and occ: "isbn13_match pre m post"
      and least: "\<forall>pre' m' post'. html = pre' @ m' @ post' \<and> isbn13_match pre' m' post'
                \<longrightarrow> length pre \<le> length pre'"
    for pre m post
  proof (cases "isbn13_search False html")
    case None
    from isbn13_search_None [OF None split] occ show ?thesis by (simp add: isbn13_match_def)
  next
    case (Some m0)
    from isbn13_search_Some [OF Some] obtain pre0 post0 where split0: "html = pre0 @ m0 @ post0"
      and occ0: "isbn13_occurs False pre0 m0 post0"
      and least0: "\<forall>pre' m' post'. html = pre' @ m' @ post' \<and> isbn13_occurs False pre' m' post'
            \<longrightarrow> length pre0 \<le> length pre'"
      by blast
    from occ0 have "isbn13_match pre0 m0 post0" by (simp add: isbn13_match_def)
    with least split0 have "length pre \<le> length pre0" by blast
    moreover from occ have "isbn13_occurs False pre m post" by (simp add: isbn13_match_def)
    with least0 split have "length pre0 \<le> length pre" by blast
    ultimately have "length pre = length pre0" by simp
    moreover from occ occ0 have "length m = length m0"
      by (simp add: isbn13_match_def isbn13_occurs_def isbn13_shape_def)
    ultimately have "m = m0" using split split0 by (rule isbn13_leftmost_unique [rotated 2])
    with Some none show ?thesis by (simp add: extract_isbn_def isbn_from_divs_find)
  qed
  have 4: "extract_isbn divs html = Inr ''N/A''"
    if none: "find isbn_block divs = None"
      and no: "\<forall>pre m post. html = pre @ m @ post \<longrightarrow> \<not> isbn13_match pre m post"
  proof (cases "isbn13_search False html")
    case None
    with none show ?thesis by (simp add: extract_isbn_def isbn_from_divs_find)
  next
    case (Some m0)
    from isbn13_search_Some [OF Some] no show ?thesis by (auto simp: isbn13_match_def)
  qed
  from 1 2 3 4 show ?thesis by blast
qed


text \<open>
  The theorem at three pages: one whose second block starts with an ISBN, one with no
  block but an ISBN in the markup, and one with neither.
\<close>

theorem extract_isbn_result_witness:
  "find isbn_block [''A desert planet.'', ''9780393355949 (ISBN10: 0393355942)'']
     = Some ''9780393355949 (ISBN10: 0393355942)''
   \<and> extract_isbn [''A desert planet.'', ''9780393355949 (ISBN10: 0393355942)''] ''<html></html>''
     = Inr ''9780393355949''
   \<and> find isbn_block [''A desert planet.''] = None
   \<and> extract_isbn [''A desert planet.''] ''<span>ISBN 9780441013593</span>'' = Inr ''9780441013593''
   \<and> extract_isbn [''A desert planet.''] ''<html></html>'' = Inr ''N/A''"
proof -
  let ?block = "''9780393355949 (ISBN10: 0393355942)''"
  have f1: "find isbn_block [''A desert planet.'', ?block] = Some ?block"
    by (simp add: isbn_block_def py_isdigit_def is_digit_char_def is_decimal_def first_token_def
        py_isspace_def)
  have tok: "first_token ?block = ''9780393355949''"
    by (simp add: first_token_def py_isspace_def)
  have f2: "find isbn_block [''A desert planet.''] = None"
    by (simp add: isbn_block_def py_isdigit_def is_digit_char_def is_decimal_def)
  have s1: "isbn13_search False ''<span>ISBN 9780441013593</span>'' = Some ''9780441013593''"
    by (simp add: isbn13_here_def is_word_def is_ascii_letter_def is_decimal_def)
  from isbn13_search_Some [OF s1] obtain pre post
    where split: "''<span>ISBN 9780441013593</span>'' = pre @ ''9780441013593'' @ post"
      and occ: "isbn13_match pre ''9780441013593'' post"
      and least: "\<forall>pre' m' post'. ''<span>ISBN 9780441013593</span>'' = pre' @ m' @ post'
            \<and> isbn13_match pre' m' post' \<longrightarrow> length pre \<le> length pre'"
    unfolding isbn13_match_def by blast
  have s2: "isbn13_search False ''<html></html>'' = None"
    by (simp add: isbn13_here_def)
  have none: "\<forall>pre m post. ''<html></html>'' = pre @ m @ post \<longrightarrow> \<not> isbn13_match pre m post"
    using isbn13_search_None [OF s2] by (simp add: isbn13_match_def)
  note thm1 = extract_isbn_result [of "[''A desert planet.'', ?block]" "''<html></html>''"]
  note thm2 = extract_isbn_result [of "[''A desert planet.'']" "''<span>ISBN 9780441013593</span>''"]
  note thm3 = extract_isbn_result [of "[''A desert planet.'']" "''<html></html>''"]
  have r1: "extract_isbn [''A desert planet.'', ?block] ''<html></html>'' = Inr ''9780393355949''"
    using thm1 f1 tok by simp
  have r2: "extract_isbn [''A desert planet.''] ''<span>ISBN 9780441013593</span>''
      = Inr ''9780441013593''"
    using thm2 f2 split occ least by blast
  have r3: "extract_isbn [''A desert planet.''] ''<html></html>'' = Inr ''N/A''"
    using thm3 f2 none by blast
  from f1 r1 f2 r2 r3 show ?thesis by blast
qed

text \<open>
  The claim as the specification states it fails in both its parts. The block
  \<^verbatim>\<open>123abcdefghij\<close> has no token that starts with ten digits (its only token
  starts with three), and the markup is empty, so the claim gives \<^verbatim>\<open>N/A\<close>; the
  code returns the token. The markup \<^verbatim>\<open>isbn_9780393355949\<close> holds thirteen
  digits that begin with 978, which the claim returns; the code finds no word boundary
  before them and returns \<^verbatim>\<open>N/A\<close>.
\<close>

theorem extract_isbn_counterexample:
  "extract_isbn [''123abcdefghij''] [] = Inr ''123abcdefghij''
   \<and> py_split ''123abcdefghij'' = [''123abcdefghij'']
   \<and> length (takeWhile is_decimal ''123abcdefghij'') = 3
   \<and> extract_isbn [] ''isbn_9780393355949'' = Inr ''N/A''
   \<and> ''isbn_9780393355949'' = ''isbn_'' @ ''9780393355949''
   \<and> list_all is_decimal ''9780393355949''"
  by (simp add: extract_isbn_def py_split_def py_isspace_def py_isdigit_def is_digit_char_def
      is_decimal_def isbn13_here_def is_word_def is_ascii_letter_def)

section \<open>The publication date\<close>



















































section \<open>The discovery crawler\<close>






















section \<open>The paginated URL\<close>
































end
